theory Spec2Isabelle
  imports Main "HOL-Library.Word"
begin

section \<open>Reaction Time Tester: the interrupt-driven state machine\<close>

text \<open>
  A shallow embedding of \<^verbatim>\<open>Reaction_Time_Tester.cpp\<close>. The globals of the program are
  the fields of one record; each handler of the source is a function from that record to
  the record it leaves behind. The two \<^verbatim>\<open>int\<close> globals are 32-bit words, \<^verbatim>\<open>elapsed\<close> is
  a 64-bit word, the two text buffers are arrays of 32 characters. Rendering on the LCD
  (\<^verbatim>\<open>LCD.Clear\<close>, \<^verbatim>\<open>LCD.DisplayStringAt\<close>) changes no global, so it is left out. The
  second source file holds the same functions with the same bodies, and a variable
  \<^verbatim>\<open>r\<close> that nothing reads.
\<close>

subsection \<open>The hardware objects\<close>

text \<open>
  \<^verbatim>\<open>Timer\<close> and \<^verbatim>\<open>Timeout\<close> are classes of the Mbed library; their code is not part of
  the repository. They are modelled from the spec, which describes them as the Stopwatch
  and the Callback Scheduler. Times are microseconds of the hardware clock.
\<close>

text \<open>
  Modelled from the spec: the Stopwatch (\<^verbatim>\<open>Timer t\<close>), with a running flag, the instant
  of its start and the time accumulated so far.
\<close>

record timer =
  running :: bool
  start :: nat
  time_acc :: nat

text \<open>Modelled from the spec: \<^verbatim>\<open>Timer::start\<close>, which does nothing to a running timer.\<close>

definition timer_start :: "nat \<Rightarrow> timer \<Rightarrow> timer" where
  "timer_start now tm = (if running tm then tm else tm\<lparr>running := True, start := now\<rparr>)"

text \<open>Modelled from the spec: the time since the start of a running timer.\<close>

definition slicetime :: "nat \<Rightarrow> timer \<Rightarrow> nat" where
  "slicetime now tm = (if running tm then now - start tm else 0)"

text \<open>Modelled from the spec: \<^verbatim>\<open>Timer::stop\<close>, which keeps the time measured so far.\<close>

definition timer_stop :: "nat \<Rightarrow> timer \<Rightarrow> timer" where
  "timer_stop now tm = tm\<lparr>time_acc := time_acc tm + slicetime now tm, running := False\<rparr>"

text \<open>
  Modelled from the spec: \<^verbatim>\<open>Timer::reset\<close>, which sets the measured time to zero and
  neither starts nor stops the timer.
\<close>

definition timer_reset :: "nat \<Rightarrow> timer \<Rightarrow> timer" where
  "timer_reset now tm = tm\<lparr>start := now, time_acc := 0\<rparr>"

text \<open>Modelled from the spec: \<^verbatim>\<open>Timer::elapsed_time\<close>, the reading of the stopwatch.\<close>

definition elapsed_time :: "nat \<Rightarrow> timer \<Rightarrow> nat" where
  "elapsed_time now tm = time_acc tm + slicetime now tm"

text \<open>
  The functions whose address the program passes to \<^verbatim>\<open>timeout.attach\<close> are \<^verbatim>\<open>tick\<close> and
  \<^verbatim>\<open>blinkRed\<close>; they are the two classes of callback of the spec, the idle blink and the
  blink after completion.
\<close>

datatype callback = Cb_tick | Cb_blinkRed

text \<open>
  Modelled from the spec: a scheduled callback, the spec's triple of target function,
  delay and arming instant.
\<close>

record scheduled =
  target :: callback
  fireDelay :: nat
  armedAt :: nat

text \<open>
  Modelled from the spec: the Callback Scheduler (\<^verbatim>\<open>Timeout timeout\<close>), a single slot. The
  program declares one \<^verbatim>\<open>Timeout\<close> object and schedules everything through it.
\<close>

type_synonym slot = "scheduled option"

text \<open>
  Modelled from the spec: \<^verbatim>\<open>Timeout::attach\<close>, the spec's \<open>arm\<close>. A callback that is
  pending is replaced.
\<close>

definition attach :: "callback \<Rightarrow> nat \<Rightarrow> nat \<Rightarrow> slot \<Rightarrow> slot" where
  "attach cb delay now sl = Some \<lparr>target = cb, fireDelay = delay, armedAt = now\<rparr>"

text \<open>
  Modelled from the spec: \<^verbatim>\<open>Timeout::detach\<close>, the spec's \<open>cancel\<close>. The program never
  calls it.
\<close>

definition detach :: "slot \<Rightarrow> slot" where
  "detach sl = None"

text \<open>Modelled from the spec: a callback is due once its delay has passed.\<close>

definition due :: "nat \<Rightarrow> scheduled \<Rightarrow> bool" where
  "due now c = (armedAt c + fireDelay c \<le> now)"

text \<open>The pending callbacks of the scheduler, as a list.\<close>

definition pending :: "slot \<Rightarrow> scheduled list" where
  "pending sl = (case sl of None \<Rightarrow> [] | Some c \<Rightarrow> [c])"

text \<open>
  Modelled from the spec: the expiry of the scheduler at \<open>now\<close>. The callback that is due
  is taken out of the slot, which is empty when the callback runs; nothing is taken
  before the delay is over.
\<close>

definition take_due :: "nat \<Rightarrow> slot \<Rightarrow> scheduled option \<times> slot" where
  "take_due now sl =
     (case sl of
        None \<Rightarrow> (None, None)
      | Some c \<Rightarrow> if due now c then (Some c, None) else (None, Some c))"

subsection \<open>The global variables\<close>

type_synonym c_int = "32 word"
type_synonym uint64_t = "64 word"

definition INT_MAX :: c_int where
  "INT_MAX = 0x7FFFFFFF"

record sys =
  state :: c_int
  reaction :: bool
  pB :: c_int
  elapsed :: uint64_t
  bufferElapsed :: "char list"
  bufferpB :: "char list"
  green :: bool
  red :: bool
  timeout :: slot
  t :: timer
  clock :: nat

subsection \<open>Formatted output\<close>

text \<open>
  \<^verbatim>\<open>sprintf\<close> writes the formatted text and a terminating NUL at the start of the buffer
  and leaves the bytes behind it alone. The buffers hold 32 bytes; a longer text runs
  over the end of the array, which has no defined behaviour in C: the model reports it.
\<close>

datatype fault = BufferOverflow

fun dec_digits :: "nat \<Rightarrow> string" where
  "dec_digits n =
     (if n < 10 then [''0123456789'' ! n]
      else dec_digits (n div 10) @ [''0123456789'' ! (n mod 10)])"

declare dec_digits.simps [simp del]

definition dec_int :: "int \<Rightarrow> string" where
  "dec_int i = (if i < 0 then CHR ''-'' # dec_digits (nat (- i)) else dec_digits (nat i))"

definition sprintf :: "char list \<Rightarrow> string \<Rightarrow> fault + char list" where
  "sprintf buf txt =
     (if length txt + 1 \<le> 32
      then Inr (txt @ CHR 0x00 # drop (length txt + 1) buf)
      else Inl BufferOverflow)"

text \<open>\<^verbatim>\<open>memset(buf, 0, sizeof(buf))\<close> on an array of 32 characters.\<close>

definition memset0 :: "char list \<Rightarrow> char list" where
  "memset0 buf = replicate 32 (CHR 0x00)"

text \<open>The two format strings of the source, \<^verbatim>\<open>%llu\<close> and \<^verbatim>\<open>%d\<close> filled in.\<close>

definition fmt_elapsed :: "64 word \<Rightarrow> string" where
  "fmt_elapsed e = ''The time taken was '' @ dec_digits (unat e) @ '' ms''"

definition fmt_pB :: "32 word \<Rightarrow> string" where
  "fmt_pB p = ''Personal Best: '' @ dec_int (sint p) @ '' ms''"

text \<open>The text of a buffer, as a reader of a C string sees it: up to the first NUL.\<close>

definition c_str :: "char list \<Rightarrow> string" where
  "c_str buf = takeWhile (\<lambda>c. c \<noteq> CHR 0x00) buf"

subsection \<open>The functions of the state machine\<close>

definition reaction1 :: "sys \<Rightarrow> sys" where
  "reaction1 s =
     s\<lparr>elapsed := 0, green := True, t := timer_start (clock s) (t s), reaction := True\<rparr>"

definition blinkRed :: "sys \<Rightarrow> sys" where
  "blinkRed s =
     s\<lparr>red := \<not> red s, timeout := attach Cb_blinkRed 300000 (clock s) (timeout s)\<rparr>"

definition tick :: "sys \<Rightarrow> sys" where
  "tick s =
     (if state s = 0 then
        s\<lparr>green := \<not> green s, timeout := attach Cb_tick 100000 (clock s) (timeout s)\<rparr>
      else if state s = 1 then
        s\<lparr>reaction := False, t := timer_reset (clock s) (t s)\<rparr>
      else if state s = 2 then
        blinkRed s
      else s)"

text \<open>
  Line 135 of the source: the count of milliseconds read from the timer, which is the
  count of microseconds divided by 1000, stored in a \<^verbatim>\<open>uint64_t\<close>.
\<close>

definition measure_ms :: "nat \<Rightarrow> timer \<Rightarrow> uint64_t" where
  "measure_ms now tm = word_of_nat (elapsed_time now tm div 1000)"

text \<open>
  Lines 141 to 143: the comparison \<^verbatim>\<open>elapsed < pB\<close> converts the \<^verbatim>\<open>int\<close> to \<^verbatim>\<open>uint64_t\<close>
  (sign extension) and compares unsigned; the assignment \<^verbatim>\<open>pB = elapsed\<close> keeps the low
  32 bits.
\<close>

definition personal_best :: "uint64_t \<Rightarrow> c_int \<Rightarrow> c_int" where
  "personal_best e p = (if e < scast p then ucast e else p)"

text \<open>
  A handler either returns, with the globals as it leaves them, or reaches a statement
  that overruns a buffer: the outcome is then the fault together with the globals as they
  are when that statement is reached. What the globals are after the overrun the model
  does not say.
\<close>

type_synonym outcome = "(fault \<times> sys) + sys"

definition user :: "sys \<Rightarrow> outcome" where
  "user s =
     (if state s = 0 then
        Inr (tick (s\<lparr>state := 1, green := False\<rparr>))
      else if state s = 1 \<and> reaction s = True \<and> elapsed s \<ge> 0 then
        (let tm = timer_stop (clock s) (t s);
             e = measure_ms (clock s) tm;
             s1 = s\<lparr>t := tm, elapsed := e\<rparr>
         in case sprintf (bufferElapsed s1) (fmt_elapsed e) of
              Inl f \<Rightarrow> Inl (f, s1)
            | Inr b1 \<Rightarrow>
                (let p = personal_best e (pB s1);
                     s2 = s1\<lparr>bufferElapsed := b1, pB := p\<rparr>
                 in case sprintf (bufferpB s2) (fmt_pB p) of
                      Inl f \<Rightarrow> Inl (f, s2)
                    | Inr b2 \<Rightarrow>
                        Inr (tick (s2\<lparr>bufferpB := b2, green := False, state := 2\<rparr>))))
      else if state s = 2 then
        Inr (tick (s\<lparr>state := 0, red := False\<rparr>))
      else
        Inr (tick (s\<lparr>state := 0\<rparr>)))"


text \<open>
  \<^verbatim>\<open>external\<close> in two parts: everything before its last statement, and the call of
  \<^verbatim>\<open>tick\<close> that re-enters the idle blinking.
\<close>

definition external_clear :: "sys \<Rightarrow> sys" where
  "external_clear s =
     s\<lparr>state := 0, pB := INT_MAX, elapsed := 0, reaction := False,
       bufferElapsed := memset0 (bufferElapsed s), bufferpB := memset0 (bufferpB s),
       red := False\<rparr>"

definition external :: "sys \<Rightarrow> sys" where
  "external s = tick (external_clear s)"

subsection \<open>Interrupts and runs\<close>

text \<open>
  The expiry of the \<^verbatim>\<open>Timeout\<close>: the pending callback, if its delay is over, is taken
  out of the slot and called.
\<close>

definition run_callback :: "callback \<Rightarrow> sys \<Rightarrow> sys" where
  "run_callback cb s = (case cb of Cb_tick \<Rightarrow> tick s | Cb_blinkRed \<Rightarrow> blinkRed s)"

definition expire :: "sys \<Rightarrow> sys" where
  "expire s =
     (case take_due (clock s) (timeout s) of
        (None, sl) \<Rightarrow> s
      | (Some c, sl) \<Rightarrow> run_callback (target c) (s\<lparr>timeout := sl\<rparr>))"

datatype irq = UserButton | ExternalButton | TimeoutExpiry

text \<open>An event is an interrupt and the time in microseconds since the event before it.\<close>

type_synonym event = "nat \<times> irq"

definition dispatch :: "irq \<Rightarrow> sys \<Rightarrow> outcome" where
  "dispatch i s =
     (case i of
        UserButton \<Rightarrow> user s
      | ExternalButton \<Rightarrow> Inr (external s)
      | TimeoutExpiry \<Rightarrow> Inr (expire s))"

definition step :: "event \<Rightarrow> sys \<Rightarrow> outcome" where
  "step ev s = dispatch (snd ev) (s\<lparr>clock := clock s + fst ev\<rparr>)"

fun run :: "event list \<Rightarrow> sys \<Rightarrow> outcome" where
  "run [] s = Inr s"
| "run (ev # evs) s = (case step ev s of Inl f \<Rightarrow> Inl f | Inr s' \<Rightarrow> run evs s')"

text \<open>
  The globals as their initialisers leave them, and the state in which \<^verbatim>\<open>main\<close> enters
  its display loop: both LEDs off, then the first call of \<^verbatim>\<open>tick\<close>. Handlers run to
  completion, one at a time; an interrupt that arrives while \<^verbatim>\<open>main\<close> is still on its
  way to the loop is not considered.
\<close>

definition globals :: sys where
  "globals =
     \<lparr>state = 0, reaction = False, pB = INT_MAX, elapsed = 0,
      bufferElapsed = replicate 32 (CHR 0x00), bufferpB = replicate 32 (CHR 0x00),
      green = False, red = False, timeout = None,
      t = \<lparr>running = False, start = 0, time_acc = 0\<rparr>, clock = 0\<rparr>"

definition main_init :: sys where
  "main_init = tick (globals\<lparr>green := False, red := False\<rparr>)"

text \<open>
  What holds as long as no measurement has been started: the state is 0 or 1, the
  reaction flag is clear, the timer is stopped, and the record is as \<^verbatim>\<open>external\<close> leaves it.
\<close>

definition never_measured :: "sys \<Rightarrow> bool" where
  "never_measured s =
     ((state s = 0 \<or> state s = 1) \<and> \<not> reaction s \<and> \<not> running (t s)
      \<and> elapsed s = 0 \<and> pB s = INT_MAX)"

subsection \<open>Two states used as examples\<close>

text \<open>
  \<open>armed\<close> is the state after the first press of the user button, at time 0.
  \<open>measuring d\<close> is the state the header comment of the source describes for the
  measurement: \<^verbatim>\<open>reaction1\<close> has run in the armed state and \<open>d\<close> microseconds have
  passed since.
\<close>

definition armed :: sys where
  "armed = tick (main_init\<lparr>state := 1, green := False\<rparr>)"

definition measuring :: "nat \<Rightarrow> sys" where
  "measuring d = (reaction1 armed)\<lparr>clock := d\<rparr>"

section \<open>Properties\<close>

subsection \<open>Decimal digits and the capacity of the buffers\<close>

lemma length_dec_digits_le: "n < 10 ^ Suc k \<Longrightarrow> length (dec_digits n) \<le> Suc k"
proof (induction k arbitrary: n)
  case 0
  then show ?case by (simp add: dec_digits.simps)
next
  case (Suc k)
  show ?case
  proof (cases "n < 10")
    case True
    then show ?thesis by (simp add: dec_digits.simps)
  next
    case False
    from Suc.prems have "n div 10 < 10 ^ Suc k"
      by (simp add: less_mult_imp_div_less mult.commute)
    then have "length (dec_digits (n div 10)) \<le> Suc k"
      by (rule Suc.IH)
    with False show ?thesis
      by (subst dec_digits.simps) simp
  qed
qed

lemma length_dec_digits_gt: "10 ^ k \<le> n \<Longrightarrow> k < length (dec_digits n)"
proof (induction k arbitrary: n)
  case 0
  show ?case by (subst dec_digits.simps) simp
next
  case (Suc k)
  then have ge: "10 \<le> n"
    by (metis One_nat_def le_trans one_le_numeral one_le_power power_Suc mult.right_neutral mult_le_mono2)
  from Suc.prems have "10 ^ k \<le> n div 10"
    by (simp add: less_eq_div_iff_mult_less_eq mult.commute)
  then have "k < length (dec_digits (n div 10))"
    by (rule Suc.IH)
  with ge show ?case
    by (subst dec_digits.simps) simp
qed

lemma length_dec_int_word32: "length (dec_int (sint (p :: 32 word))) \<le> 11"
proof -
  have lo: "- (2 ^ 31) \<le> sint p" and hi: "sint p < 2 ^ 31"
    using sint_ge [of p] sint_lt [of p] by simp_all
  show ?thesis
  proof (cases "sint p < 0")
    case True
    with lo have "nat (- sint p) < 10 ^ Suc 9" by simp
    then have "length (dec_digits (nat (- sint p))) \<le> Suc 9"
      by (rule length_dec_digits_le)
    with True show ?thesis by (simp add: dec_int_def)
  next
    case False
    with hi have "nat (sint p) < 10 ^ Suc 9" by simp
    then have "length (dec_digits (nat (sint p))) \<le> Suc 9"
      by (rule length_dec_digits_le)
    with False show ?thesis by (simp add: dec_int_def)
  qed
qed

text \<open>Reading the timer after stopping it gives what it showed when it was stopped.\<close>

lemma elapsed_time_stop: "elapsed_time now (timer_stop now tm) = elapsed_time now tm"
  by (simp add: elapsed_time_def timer_stop_def slicetime_def)

text \<open>
  The text of the personal best always fits; the text of the elapsed time fits exactly
  when the count of milliseconds has at most nine digits.
\<close>

lemma sprintf_pB_fits:
  "\<exists>b. sprintf buf (fmt_pB p) = Inr b"
  using length_dec_int_word32 [of p] by (simp add: sprintf_def fmt_pB_def)

lemma sprintf_elapsed_fits:
  "unat e < 1000000000 \<Longrightarrow> \<exists>b. sprintf buf (fmt_elapsed e) = Inr b"
  using length_dec_digits_le [of "unat e" 8] by (simp add: sprintf_def fmt_elapsed_def)

lemma sprintf_elapsed_overflow:
  "1000000000 \<le> unat e \<Longrightarrow> sprintf buf (fmt_elapsed e) = Inl BufferOverflow"
  using length_dec_digits_gt [of 9 "unat e"] by (simp add: sprintf_def fmt_elapsed_def)

subsection \<open>Conversions between the integer types\<close>

lemma uint_scast_nonneg:
  assumes "0 \<le> sint (p :: 32 word)"
  shows "uint (scast p :: 64 word) = sint p"
proof -
  have s: "sint (scast p :: 64 word) = sint p"
    by (simp add: sint_up_scast is_up)
  have "sint p < 2 ^ 31"
    using sint_lt [of p] by simp
  then have lt: "sint p < 2 ^ 64"
    by simp
  have "uint (scast p :: 64 word) = take_bit 64 (sint (scast p :: 64 word))"
    using uint_sint [of "scast p :: 64 word"] by simp
  also have "\<dots> = sint p"
    using assms lt by (simp add: s take_bit_int_eq_self)
  finally show ?thesis .
qed

lemma sint_ucast_small:
  assumes "uint (e :: 64 word) < 2 ^ 31"
  shows "sint (ucast e :: 32 word) = uint e"
proof -
  have "sint (ucast e :: 32 word) = signed_take_bit 31 (uint e)"
    using signed_ucast_eq [of e, where ?'c = 32 and ?'a = int] by simp
  also have "\<dots> = uint e"
  proof (rule signed_take_bit_int_eq_self)
    have "- (2 ^ 31) \<le> (0 :: int)" by simp
    also have "0 \<le> uint e" by (rule uint_nonnegative)
    finally show "- (2 ^ 31) \<le> uint e" .
    show "uint e < 2 ^ 31" by (fact assms)
  qed
  finally show ?thesis .
qed

lemma uint_word_of_nat_small:
  assumes "n < 2 ^ 64"
  shows "uint (word_of_nat n :: 64 word) = int n"
  using assms by (simp add: unsigned_of_nat take_bit_nat_eq_self)

lemma unat_word_of_nat_small:
  assumes "n < 2 ^ 64"
  shows "unat (word_of_nat n :: 64 word) = n"
  using assms by (simp add: unsigned_of_nat take_bit_nat_eq_self)

text \<open>With a personal best that is not negative, the update rule is the comparison of integers.\<close>

lemma personal_best_int:
  assumes "0 \<le> sint p" and "uint e < 2 ^ 31"
  shows "sint (personal_best e p) = (if uint e < sint p then uint e else sint p)"
  using assms
  by (simp add: personal_best_def word_less_def uint_scast_nonneg sint_ucast_small)

lemma personal_best_none:
  assumes "uint e < 2 ^ 31 - 1"
  shows "personal_best e INT_MAX = ucast e"
proof -
  have "uint (scast INT_MAX :: 64 word) = 2 ^ 31 - 1"
    by (simp add: INT_MAX_def)
  with assms show ?thesis
    by (simp add: personal_best_def word_less_def)
qed


subsection \<open>The branches of the user-button handler\<close>

lemma user_idle: "state s = 0 \<Longrightarrow> user s = Inr (tick (s\<lparr>state := 1, green := False\<rparr>))"
  by (simp add: user_def)

lemma user_complete: "state s = 2 \<Longrightarrow> user s = Inr (tick (s\<lparr>state := 0, red := False\<rparr>))"
  by (simp add: user_def)

lemma user_invalid:
  "state s \<noteq> 0 \<Longrightarrow> state s \<noteq> 2 \<Longrightarrow> \<not> (state s = 1 \<and> reaction s) \<Longrightarrow>
   user s = Inr (tick (s\<lparr>state := 0\<rparr>))"
  by (auto simp add: user_def)

lemma user_valid_fits:
  assumes "state s = 1" and "reaction s"
    and "unat (measure_ms (clock s) (t s)) < 1000000000"
  shows "\<exists>b1 b2. user s =
           Inr (blinkRed (s\<lparr>t := timer_stop (clock s) (t s),
                              elapsed := measure_ms (clock s) (t s), bufferElapsed := b1,
                              pB := personal_best (measure_ms (clock s) (t s)) (pB s),
                              bufferpB := b2, green := False, state := 2\<rparr>))"
proof -
  let ?e = "measure_ms (clock s) (t s)"
  have m: "measure_ms (clock s) (timer_stop (clock s) (t s)) = ?e"
    by (simp add: measure_ms_def elapsed_time_stop)
  obtain b1 where b1: "sprintf (bufferElapsed s) (fmt_elapsed ?e) = Inr b1"
    using sprintf_elapsed_fits [OF assms(3)] by blast
  obtain b2 where b2: "sprintf (bufferpB s) (fmt_pB (personal_best ?e (pB s))) = Inr b2"
    using sprintf_pB_fits by blast
  have "user s =
           Inr (blinkRed (s\<lparr>t := timer_stop (clock s) (t s),
                              elapsed := ?e, bufferElapsed := b1,
                              pB := personal_best ?e (pB s),
                              bufferpB := b2, green := False, state := 2\<rparr>))"
    using assms(1,2) b1 b2 by (simp add: user_def m Let_def tick_def)
  then show ?thesis by blast
qed

lemma user_valid_overflow:
  assumes "state s = 1" and "reaction s"
    and "1000000000 \<le> unat (measure_ms (clock s) (t s))"
  shows "user s =
           Inl (BufferOverflow,
                s\<lparr>t := timer_stop (clock s) (t s), elapsed := measure_ms (clock s) (t s)\<rparr>)"
proof -
  let ?e = "measure_ms (clock s) (t s)"
  have m: "measure_ms (clock s) (timer_stop (clock s) (t s)) = ?e"
    by (simp add: measure_ms_def elapsed_time_stop)
  have "sprintf (bufferElapsed s) (fmt_elapsed ?e) = Inl BufferOverflow"
    using assms(3) by (rule sprintf_elapsed_overflow)
  then show ?thesis
    using assms(1,2) by (simp add: user_def m Let_def)
qed

subsection \<open>The example states\<close>

lemma state_measuring: "state (measuring d) = 1"
  by (simp add: measuring_def reaction1_def armed_def tick_def)

lemma reaction_measuring: "reaction (measuring d)"
  by (simp add: measuring_def reaction1_def)

lemma pB_measuring: "pB (measuring d) = INT_MAX"
  by (simp add: measuring_def reaction1_def armed_def tick_def main_init_def globals_def)

lemma elapsed_time_measuring: "elapsed_time (clock (measuring d)) (t (measuring d)) = d"
  by (simp add: measuring_def reaction1_def armed_def tick_def main_init_def globals_def
      timer_start_def timer_reset_def elapsed_time_def slicetime_def)

lemma measure_ms_measuring:
  "measure_ms (clock (measuring d)) (t (measuring d)) = word_of_nat (d div 1000)"
  by (simp add: measure_ms_def elapsed_time_measuring)

subsection \<open>The completion press\<close>

text \<open>
  Claim C1, amended. For every press of the user button in state 1 with the reaction flag
  set, a personal best that is not negative and a timer reading below \<open>10\<^sup>9\<close> ms
  (the text of the elapsed time then fits its buffer of 32 bytes): the handler returns,
  \<^verbatim>\<open>elapsed\<close> is the timer's count of milliseconds, the state is 2, and the personal
  best becomes the elapsed time if and only if it was \<^verbatim>\<open>INT_MAX\<close> or the elapsed time
  is smaller than it; otherwise it is unchanged.
\<close>

theorem user_valid_press_record:
  assumes "state s = 1" and "reaction s" and "0 \<le> sint (pB s)"
    and "elapsed_time (clock s) (t s) div 1000 < 1000000000"
  shows "\<exists>s'. user s = Inr s' \<and> state s' = 2
           \<and> uint (elapsed s') = int (elapsed_time (clock s) (t s) div 1000)
           \<and> sint (pB s') =
               (if pB s = INT_MAX \<or> uint (elapsed s') < sint (pB s)
                then uint (elapsed s') else sint (pB s))"
proof -
  let ?ms = "elapsed_time (clock s) (t s) div 1000"
  let ?e = "measure_ms (clock s) (t s)"
  have big: "?ms < 2 ^ 64"
    using assms(4) by simp
  have ue: "uint ?e = int ?ms"
    using big by (simp add: measure_ms_def uint_word_of_nat_small)
  have ne: "unat ?e = ?ms"
    using big by (simp add: measure_ms_def unat_word_of_nat_small)
  have small: "uint ?e < 2 ^ 31 - 1"
    using assms(4) by (simp add: ue)
  then have small': "uint ?e < 2 ^ 31"
    by simp
  have fits: "unat ?e < 1000000000"
    using assms(4) by (simp add: ne)
  obtain b1 b2 where u: "user s =
      Inr (blinkRed (s\<lparr>t := timer_stop (clock s) (t s),
                         elapsed := ?e, bufferElapsed := b1,
                         pB := personal_best ?e (pB s),
                         bufferpB := b2, green := False, state := 2\<rparr>))"
    using user_valid_fits [OF assms(1,2) fits] by blast
  have best: "sint (personal_best ?e (pB s)) =
      (if pB s = INT_MAX \<or> uint ?e < sint (pB s) then uint ?e else sint (pB s))"
  proof (cases "pB s = INT_MAX")
    case True
    then show ?thesis
      using small small' by (simp add: personal_best_none sint_ucast_small)
  next
    case False
    then show ?thesis
      using assms(3) small' by (simp add: personal_best_int)
  qed
  show ?thesis
    using u ue best by (simp add: blinkRed_def)
qed

text \<open>A press 237.5 ms after the timer was started, with no personal best yet.\<close>

theorem user_valid_press_record_witness:
  "state (measuring 237500) = 1 \<and> reaction (measuring 237500)
   \<and> 0 \<le> sint (pB (measuring 237500))
   \<and> elapsed_time (clock (measuring 237500)) (t (measuring 237500)) div 1000 < 1000000000
   \<and> (\<exists>s'. user (measuring 237500) = Inr s' \<and> state s' = 2
          \<and> uint (elapsed s') = 237 \<and> sint (pB s') = 237)"
proof -
  have h1: "state (measuring 237500) = 1" by (rule state_measuring)
  have h2: "reaction (measuring 237500)" by (rule reaction_measuring)
  have h3: "0 \<le> sint (pB (measuring 237500))" by (simp add: pB_measuring INT_MAX_def)
  have h4: "elapsed_time (clock (measuring 237500)) (t (measuring 237500)) div 1000 < 1000000000"
    by (simp add: elapsed_time_measuring)
  show ?thesis
    using h1 h2 h3 h4 user_valid_press_record [OF h1 h2 h3 h4]
    by (auto simp add: elapsed_time_measuring pB_measuring)
qed

text \<open>
  A press \<open>2\<^sup>3\<^sup>1\<close> ms after the timer was started, with no personal best yet.
  The elapsed time has ten digits, so the text written to \<^verbatim>\<open>bufferElapsed\<close> takes 33
  bytes; and the comparison \<^verbatim>\<open>elapsed < pB\<close> fails against \<^verbatim>\<open>INT_MAX\<close>, so the update
  rule leaves the personal best at \<^verbatim>\<open>INT_MAX\<close>.
\<close>

theorem user_valid_press_late_counterexample:
  "state (measuring 2147483648000) = 1 \<and> reaction (measuring 2147483648000)
   \<and> pB (measuring 2147483648000) = INT_MAX
   \<and> measure_ms (clock (measuring 2147483648000)) (t (measuring 2147483648000)) = 2147483648
   \<and> personal_best 2147483648 INT_MAX = INT_MAX
   \<and> user (measuring 2147483648000)
       = Inl (BufferOverflow,
              (measuring 2147483648000)
                \<lparr>t := timer_stop 2147483648000 (t (measuring 2147483648000)),
                  elapsed := 2147483648\<rparr>)"
proof -
  have m: "measure_ms (clock (measuring 2147483648000)) (t (measuring 2147483648000)) = 2147483648"
    by (simp add: measure_ms_measuring)
  have c: "clock (measuring 2147483648000) = 2147483648000"
    by (simp add: measuring_def)
  have m': "measure_ms 2147483648000 (t (measuring 2147483648000)) = 2147483648"
    using m by (simp add: c)
  have "user (measuring 2147483648000)
      = Inl (BufferOverflow,
             (measuring 2147483648000)
               \<lparr>t := timer_stop 2147483648000 (t (measuring 2147483648000)),
                 elapsed := 2147483648\<rparr>)"
    using user_valid_overflow [of "measuring 2147483648000"]
    by (simp add: state_measuring reaction_measuring m' c)
  moreover have "personal_best 2147483648 INT_MAX = INT_MAX"
    by (simp add: personal_best_def INT_MAX_def)
  ultimately show ?thesis
    by (simp add: state_measuring reaction_measuring pB_measuring m)
qed

subsection \<open>Runs from the initial state\<close>

lemma never_measured_main_init: "never_measured main_init"
  by (simp add: never_measured_def main_init_def globals_def tick_def)

lemma never_measured_tick: "never_measured s \<Longrightarrow> never_measured (tick s)"
  by (auto simp add: never_measured_def tick_def timer_reset_def)

lemma never_measured_blinkRed: "never_measured s \<Longrightarrow> never_measured (blinkRed s)"
  by (simp add: never_measured_def blinkRed_def)

lemma never_measured_expire: "never_measured s \<Longrightarrow> never_measured (expire s)"
proof -
  assume a: "never_measured s"
  have b: "\<And>sl. never_measured (s\<lparr>timeout := sl\<rparr>)"
    using a by (simp add: never_measured_def)
  show ?thesis
    using a b
    by (auto simp add: expire_def take_due_def run_callback_def
        never_measured_tick never_measured_blinkRed
        split: option.splits callback.splits)
qed

lemma never_measured_external: "never_measured s \<Longrightarrow> never_measured (external s)"
  by (simp add: never_measured_def external_def external_clear_def tick_def)

lemma never_measured_user:
  assumes "never_measured s"
  shows "\<exists>s'. user s = Inr s' \<and> never_measured s'"
proof (cases "state s = 0")
  case True
  have "never_measured (tick (s\<lparr>state := 1, green := False\<rparr>))"
    using assms by (simp add: never_measured_def tick_def timer_reset_def)
  with True show ?thesis
    by (simp add: user_idle)
next
  case False
  with assms have one: "state s = 1" and nr: "\<not> reaction s"
    by (simp_all add: never_measured_def)
  have "never_measured (tick (s\<lparr>state := 0\<rparr>))"
    using assms by (simp add: never_measured_def tick_def)
  moreover have "user s = Inr (tick (s\<lparr>state := 0\<rparr>))"
    using one nr by (simp add: user_invalid)
  ultimately show ?thesis
    by simp
qed

lemma never_measured_step:
  assumes "never_measured s"
  shows "\<exists>s'. step ev s = Inr s' \<and> never_measured s'"
proof -
  have c: "never_measured (s\<lparr>clock := clock s + fst ev\<rparr>)"
    using assms by (simp add: never_measured_def)
  show ?thesis
  proof (cases "snd ev")
    case UserButton
    then show ?thesis
      using never_measured_user [OF c] by (simp add: step_def dispatch_def)
  next
    case ExternalButton
    then show ?thesis
      using never_measured_external [OF c] by (simp add: step_def dispatch_def)
  next
    case TimeoutExpiry
    then show ?thesis
      using never_measured_expire [OF c] by (simp add: step_def dispatch_def)
  qed
qed

lemma never_measured_run:
  "never_measured s \<Longrightarrow> \<exists>s'. run evs s = Inr s' \<and> never_measured s'"
proof (induction evs arbitrary: s)
  case Nil
  then show ?case by simp
next
  case (Cons ev evs)
  from never_measured_step [OF Cons.prems]
  obtain s1 where s1: "step ev s = Inr s1" and n1: "never_measured s1"
    by blast
  from Cons.IH [OF n1] show ?case
    by (simp add: s1)
qed

text \<open>Every handler leaves the state variable alone or writes 0, 1 or 2 to it.\<close>

lemma state_tick: "state (tick s) = state s"
  by (simp add: tick_def blinkRed_def)

lemma state_expire: "state (expire s) = state s"
  by (simp add: expire_def take_due_def run_callback_def state_tick blinkRed_def
      split: option.splits callback.splits)

lemma state_user:
  assumes "user s = Inr s'"
  shows "state s' = 0 \<or> state s' = 1 \<or> state s' = 2"
  using assms
  by (auto simp add: user_def Let_def state_tick split: if_splits sum.splits)

lemma state_step:
  assumes "step ev s = Inr s'"
  shows "state s' \<in> {0, 1, 2} \<or> state s' = state s"
proof (cases "snd ev")
  case UserButton
  then show ?thesis
    using assms state_user [of "s\<lparr>clock := clock s + fst ev\<rparr>" s']
    by (simp add: step_def dispatch_def)
next
  case ExternalButton
  then show ?thesis
    using assms by (auto simp add: step_def dispatch_def external_def external_clear_def state_tick)
next
  case TimeoutExpiry
  then show ?thesis
    using assms by (auto simp add: step_def dispatch_def state_expire)
qed

text \<open>
  Claim C2. After every sequence of user-button, external-button and timeout events from
  the initial state the program is in a defined state whose state variable is 0, 1 or 2;
  and from any state whatever, a handler that returns has left the state variable alone
  or written one of these three values to it.
\<close>

theorem state_in_range:
  "(\<exists>s'. run evs main_init = Inr s' \<and> state s' \<in> {0, 1, 2})
   \<and> (\<forall>s'. step ev s = Inr s' \<longrightarrow> state s' \<in> {0, 1, 2} \<or> state s' = state s)"
proof
  from never_measured_run [OF never_measured_main_init]
  obtain s' where "run evs main_init = Inr s'" and "never_measured s'"
    by blast
  then show "\<exists>s'. run evs main_init = Inr s' \<and> state s' \<in> {0, 1, 2}"
    by (auto simp add: never_measured_def)
  show "\<forall>s'. step ev s = Inr s' \<longrightarrow> state s' \<in> {0, 1, 2} \<or> state s' = state s"
    using state_step by blast
qed

text \<open>
  A run of two presses, and the completion press 237.5 ms into a measurement, which
  writes 2.
\<close>

theorem state_in_range_witness:
  "(\<exists>s'. run [(5, UserButton), (7, UserButton)] main_init = Inr s' \<and> state s' \<in> {0, 1, 2})
   \<and> (\<exists>s'. step (0, UserButton) (measuring 237500) = Inr s' \<and> state s' = 2)"
proof -
  have m: "(measuring 237500)\<lparr>clock := clock (measuring 237500) + 0\<rparr> = measuring 237500"
    by simp
  have "unat (measure_ms (clock (measuring 237500)) (t (measuring 237500))) < 1000000000"
    by (simp add: measure_ms_measuring)
  from user_valid_fits [OF state_measuring reaction_measuring this]
  obtain s2 where u: "user (measuring 237500) = Inr s2" and "state s2 = 2"
    by (auto simp add: blinkRed_def)
  then have "step (0, UserButton) (measuring 237500) = Inr s2 \<and> state s2 = 2"
    by (simp add: step_def dispatch_def)
  then show ?thesis
    using state_in_range [of "[(5, UserButton), (7, UserButton)]" "(0, UserButton)" "measuring 237500"]
    by blast
qed

subsection \<open>The measurement is never started\<close>

text \<open>
  Claim C4. \<^verbatim>\<open>reaction1\<close> is the only function that sets the reaction flag or starts the
  timer, and no handler calls it: after every sequence of events from the initial state
  the reaction flag is clear, the timer is stopped, the state is not 2, and the record is
  untouched (\<^verbatim>\<open>elapsed\<close> is 0 and the personal best is \<^verbatim>\<open>INT_MAX\<close>). Had \<^verbatim>\<open>reaction1\<close>
  run last, the flag would be set and the timer would be running.
\<close>

theorem reaction1_never_runs:
  "(\<exists>s'. run evs main_init = Inr s' \<and> \<not> reaction s' \<and> \<not> running (t s') \<and> state s' \<noteq> 2
          \<and> elapsed s' = 0 \<and> pB s' = INT_MAX)
   \<and> reaction (reaction1 s) \<and> running (t (reaction1 s))"
proof -
  from never_measured_run [OF never_measured_main_init]
  obtain s' where "run evs main_init = Inr s'" and "never_measured s'"
    by blast
  then have "\<exists>s'. run evs main_init = Inr s' \<and> \<not> reaction s' \<and> \<not> running (t s')
      \<and> state s' \<noteq> 2 \<and> elapsed s' = 0 \<and> pB s' = INT_MAX"
    by (auto simp add: never_measured_def)
  then show ?thesis
    by (simp add: reaction1_def timer_start_def)
qed

subsection \<open>The press that starts a test\<close>

lemma user_main_init: "user main_init = Inr armed"
  by (simp add: user_def armed_def main_init_def globals_def tick_def)

lemma timeout_main_init:
  "timeout main_init = Some \<lparr>target = Cb_tick, fireDelay = 100000, armedAt = 0\<rparr>"
  by (simp add: main_init_def globals_def tick_def attach_def)

lemma armed_fields:
  "state armed = 1" "\<not> reaction armed" "\<not> green armed" "\<not> running (t armed)"
  "timeout armed = Some \<lparr>target = Cb_tick, fireDelay = 100000, armedAt = 0\<rparr>"
  by (simp_all add: armed_def main_init_def globals_def tick_def attach_def timer_reset_def)

text \<open>
  Claim C3, amended. For every press of the user button in state 0, with the callback of
  the idle blinking pending: the handler returns with state 1, the green LED off, the
  reaction flag clear and the timer reset, so that it reads 0. The pending callback is
  not cancelled: the slot of the \<^verbatim>\<open>Timeout\<close> is as it was. When the callback expires it
  neither switches the green LED nor arms itself again, and the slot is empty.
\<close>

theorem user_idle_press:
  assumes "state s = 0" and "timeout s = Some c" and "target c = Cb_tick"
  shows "\<exists>s'. user s = Inr s' \<and> state s' = 1 \<and> \<not> green s' \<and> \<not> reaction s'
           \<and> time_acc (t s') = 0 \<and> start (t s') = clock s
           \<and> elapsed_time (clock s') (t s') = 0
           \<and> timeout s' = Some c
           \<and> (\<forall>d. state (expire (s'\<lparr>clock := d\<rparr>)) = 1
                  \<and> \<not> green (expire (s'\<lparr>clock := d\<rparr>))
                  \<and> timeout (expire (s'\<lparr>clock := d\<rparr>)) = (if due d c then None else Some c))"
proof -
  let ?s' = "tick (s\<lparr>state := 1, green := False\<rparr>)"
  have eq: "?s' = s\<lparr>state := 1, green := False, reaction := False,
                    t := timer_reset (clock s) (t s)\<rparr>"
    by (simp add: tick_def)
  have u: "user s = Inr ?s'"
    using assms(1) by (rule user_idle)
  have fields: "state ?s' = 1" "\<not> green ?s'" "\<not> reaction ?s'" "time_acc (t ?s') = 0"
    "start (t ?s') = clock s" "elapsed_time (clock ?s') (t ?s') = 0" "timeout ?s' = Some c"
    using assms(2) by (simp_all add: eq timer_reset_def elapsed_time_def slicetime_def)
  have later: "state (expire (?s'\<lparr>clock := d\<rparr>)) = 1
      \<and> \<not> green (expire (?s'\<lparr>clock := d\<rparr>))
      \<and> timeout (expire (?s'\<lparr>clock := d\<rparr>)) = (if due d c then None else Some c)" for d
    using assms(2,3)
    by (simp add: eq expire_def take_due_def run_callback_def tick_def)
  show ?thesis
    using u fields later by blast
qed

theorem user_idle_press_witness:
  "state main_init = 0
   \<and> timeout main_init = Some \<lparr>target = Cb_tick, fireDelay = 100000, armedAt = 0\<rparr>
   \<and> (\<exists>s'. user main_init = Inr s' \<and> state s' = 1 \<and> \<not> green s' \<and> \<not> reaction s'
          \<and> elapsed_time (clock s') (t s') = 0 \<and> timeout s' = timeout main_init
          \<and> timeout (expire (s'\<lparr>clock := 100000\<rparr>)) = None)"
proof -
  let ?c = "\<lparr>target = Cb_tick, fireDelay = 100000, armedAt = 0\<rparr>"
  have h1: "state main_init = 0"
    by (simp add: main_init_def globals_def tick_def)
  have h2: "timeout main_init = Some ?c"
    by (rule timeout_main_init)
  have h3: "target ?c = Cb_tick"
    by simp
  have d: "due 100000 ?c"
    by (simp add: due_def)
  from user_idle_press [OF h1 h2 h3]
  obtain s' where "user main_init = Inr s'" and "state s' = 1" and "\<not> green s'"
    and "\<not> reaction s'" and "elapsed_time (clock s') (t s') = 0" and "timeout s' = Some ?c"
    and "\<forall>d. timeout (expire (s'\<lparr>clock := d\<rparr>)) = (if due d ?c then None else Some ?c)"
    by blast
  then show ?thesis
    using h1 h2 d by auto
qed

text \<open>
  The first press after start-up: the idle-blink callback armed by \<^verbatim>\<open>main\<close> is still
  pending afterwards, and the timer is not running.
\<close>

theorem user_idle_press_counterexample:
  "state main_init = 0 \<and> user main_init = Inr armed
   \<and> timeout armed = Some \<lparr>target = Cb_tick, fireDelay = 100000, armedAt = 0\<rparr>
   \<and> \<not> running (t armed)"
  by (simp add: user_main_init armed_fields) (simp add: main_init_def globals_def tick_def)

subsection \<open>The personal best\<close>

lemma pB_tick: "pB (tick s) = pB s"
  by (simp add: tick_def blinkRed_def)

lemma pB_expire: "pB (expire s) = pB s"
  by (simp add: expire_def take_due_def run_callback_def pB_tick blinkRed_def
      split: option.splits callback.splits)

lemma personal_best_le:
  assumes "0 \<le> sint p"
  shows "0 \<le> sint (personal_best e p) \<and> sint (personal_best e p) \<le> sint p
         \<and> sint (personal_best e p) \<le> uint e"
proof (cases "e < scast p")
  case True
  then have lt: "uint e < sint p"
    using assms by (simp add: word_less_def uint_scast_nonneg)
  have "sint p < 2 ^ 31"
    using sint_lt [of p] by simp
  with lt have "uint e < 2 ^ 31"
    by simp
  then have "sint (ucast e :: 32 word) = uint e"
    by (rule sint_ucast_small)
  with True lt show ?thesis
    by (simp add: personal_best_def)
next
  case False
  then have "sint p \<le> uint e"
    using assms by (simp add: word_less_def uint_scast_nonneg)
  with False assms show ?thesis
    by (simp add: personal_best_def)
qed

lemma user_pB:
  assumes "0 \<le> sint (pB s)" and "user s = Inr s'"
  shows "0 \<le> sint (pB s') \<and> sint (pB s') \<le> sint (pB s)
         \<and> (state s = 1 \<and> reaction s \<longrightarrow> sint (pB s') \<le> uint (elapsed s'))"
proof (cases "state s = 1 \<and> reaction s")
  case True
  then have v: "state s = 1" "reaction s"
    by simp_all
  let ?e = "measure_ms (clock s) (t s)"
  have "unat ?e < 1000000000"
  proof (rule ccontr)
    assume "\<not> unat ?e < 1000000000"
    then have "\<exists>x. user s = Inl x"
      using v by (simp add: user_valid_overflow)
    with assms(2) show False
      by auto
  qed
  from user_valid_fits [OF v this] assms(2)
  have "pB s' = personal_best ?e (pB s)" and "elapsed s' = ?e"
    by (auto simp add: blinkRed_def)
  then show ?thesis
    using personal_best_le [OF assms(1), of ?e] by simp
next
  case False
  then have "pB s' = pB s"
    using assms(2) by (auto simp add: user_def pB_tick split: if_splits)
  with False assms(1) show ?thesis
    by auto
qed

text \<open>
  Claim C5. The personal best is a count of milliseconds or \<^verbatim>\<open>INT_MAX\<close>, so it is not
  negative; every handler keeps it so. From such a state, a handler that returns has not
  increased the personal best unless it is \<^verbatim>\<open>external\<close>, which sets it to \<^verbatim>\<open>INT_MAX\<close>; and
  after a completion press the personal best is at most the elapsed time just recorded.
\<close>

theorem personal_best_never_increases:
  assumes "0 \<le> sint (pB s)" and "step ev s = Inr s'"
  shows "0 \<le> sint (pB s')
         \<and> (snd ev \<noteq> ExternalButton \<longrightarrow> sint (pB s') \<le> sint (pB s))
         \<and> (snd ev = ExternalButton \<longrightarrow> pB s' = INT_MAX)
         \<and> (snd ev = UserButton \<and> state s = 1 \<and> reaction s
              \<longrightarrow> sint (pB s') \<le> uint (elapsed s'))"
proof (cases "snd ev")
  case UserButton
  let ?s = "s\<lparr>clock := clock s + fst ev\<rparr>"
  have "user ?s = Inr s'"
    using assms(2) UserButton by (simp add: step_def dispatch_def)
  moreover have "0 \<le> sint (pB ?s)"
    using assms(1) by simp
  ultimately show ?thesis
    using user_pB [of ?s s'] UserButton by simp
next
  case ExternalButton
  then have "pB s' = INT_MAX"
    using assms(2)
    by (auto simp add: step_def dispatch_def external_def external_clear_def pB_tick)
  with ExternalButton show ?thesis
    by (simp add: INT_MAX_def)
next
  case TimeoutExpiry
  then have "pB s' = pB s"
    using assms(2) by (auto simp add: step_def dispatch_def pB_expire)
  with TimeoutExpiry assms(1) show ?thesis
    by simp
qed

text \<open>
  A completion press 200 ms into a measurement with a personal best of 150 ms, and a
  press of the external button in the same state.
\<close>

theorem personal_best_never_increases_witness:
  "0 \<le> sint (pB ((measuring 200000)\<lparr>pB := 150\<rparr>))
   \<and> (\<exists>s'. step (0, UserButton) ((measuring 200000)\<lparr>pB := 150\<rparr>) = Inr s'
          \<and> uint (elapsed s') = 200 \<and> sint (pB s') \<le> 150
          \<and> sint (pB s') \<le> uint (elapsed s'))
   \<and> (\<exists>s'. step (0, ExternalButton) ((measuring 200000)\<lparr>pB := 150\<rparr>) = Inr s'
          \<and> pB s' = INT_MAX)"
proof -
  let ?s = "(measuring 200000)\<lparr>pB := 150\<rparr>"
  have h: "0 \<le> sint (pB ?s)"
    by simp
  have st: "state ?s = 1" and re: "reaction ?s"
    by (simp_all add: state_measuring reaction_measuring)
  have ms: "measure_ms (clock (measuring 200000)) (t (measuring 200000)) = 200"
    by (simp add: measure_ms_measuring)
  then have "unat (measure_ms (clock ?s) (t ?s)) < 1000000000"
    by simp
  from user_valid_fits [OF st re this]
  obtain s1 where u: "user ?s = Inr s1" and e1: "elapsed s1 = 200"
    by (auto simp add: ms blinkRed_def)
  have step1: "step (0, UserButton) ?s = Inr s1"
    using u by (simp add: step_def dispatch_def)
  have step2: "step (0, ExternalButton) ?s = Inr (external ?s)"
    by (simp add: step_def dispatch_def)
  have a: "sint (pB s1) \<le> 150 \<and> sint (pB s1) \<le> uint (elapsed s1)"
    using personal_best_never_increases [OF h step1] st re by simp
  have b: "pB (external ?s) = INT_MAX"
    using personal_best_never_increases [OF h step2] by simp
  show ?thesis
    using h step1 step2 a b e1 by auto
qed

subsection \<open>The external button\<close>

text \<open>
  Claim C6, amended. From every state, \<^verbatim>\<open>external\<close> sets the state to 0, the personal best to
  \<^verbatim>\<open>INT_MAX\<close>, \<^verbatim>\<open>elapsed\<close> to 0 and the reaction flag to false, fills both buffers with
  NUL, so that both texts are empty, and switches the red LED off. Whatever callback was
  pending is replaced by the idle blink, armed at the time of the press. The green LED
  is not switched off: it is untouched before \<^verbatim>\<open>tick\<close> is called, and \<^verbatim>\<open>tick\<close> inverts it.
\<close>

theorem external_resets:
  "state (external s) = 0 \<and> pB (external s) = INT_MAX \<and> elapsed (external s) = 0
   \<and> \<not> reaction (external s)
   \<and> bufferElapsed (external s) = replicate 32 (CHR 0x00)
   \<and> bufferpB (external s) = replicate 32 (CHR 0x00)
   \<and> c_str (bufferElapsed (external s)) = [] \<and> c_str (bufferpB (external s)) = []
   \<and> \<not> red (external s)
   \<and> pending (timeout (external s))
       = [\<lparr>target = Cb_tick, fireDelay = 100000, armedAt = clock s\<rparr>]
   \<and> green (external_clear s) = green s
   \<and> green (external s) = (\<not> green s)"
proof -
  have eq: "external s =
      s\<lparr>state := 0, pB := INT_MAX, elapsed := 0, reaction := False,
        bufferElapsed := replicate 32 (CHR 0x00), bufferpB := replicate 32 (CHR 0x00),
        red := False, green := \<not> green s,
        timeout := Some \<lparr>target = Cb_tick, fireDelay = 100000, armedAt = clock s\<rparr>\<rparr>"
    by (simp add: external_def external_clear_def tick_def memset0_def attach_def)
  have z: "c_str (replicate 32 (CHR 0x00)) = []"
    by (simp add: c_str_def takeWhile_eq_Nil_iff)
  show ?thesis
    by (simp add: eq z pending_def) (simp add: external_clear_def)
qed

text \<open>
  At start-up the green LED is on and stays on through the clearing part of \<^verbatim>\<open>external\<close>;
  in the armed state the green LED is off and \<^verbatim>\<open>external\<close> leaves it on.
\<close>

theorem external_green_counterexample:
  "green main_init \<and> green (external_clear main_init)
   \<and> user main_init = Inr armed \<and> \<not> green armed \<and> green (external armed)"
proof -
  have "green main_init"
    by (simp add: main_init_def globals_def tick_def)
  moreover have "green (external_clear main_init) = green main_init"
    by (simp add: external_clear_def)
  moreover have "green (external armed) = (\<not> green armed)"
    by (simp add: external_def external_clear_def tick_def)
  ultimately show ?thesis
    by (simp add: user_main_init armed_fields)
qed

subsection \<open>Presses that match no transition\<close>

text \<open>
  Claim C7. For every press of the user button that none of the three guards of \<^verbatim>\<open>user\<close>
  accepts (the state is not 0, it is not 2, and it is not 1 with the reaction flag set;
  the guard \<^verbatim>\<open>elapsed >= 0\<close> holds for every \<^verbatim>\<open>uint64_t\<close>), whatever value the state variable
  has: the handler returns, the state is 0, and \<^verbatim>\<open>elapsed\<close>, the personal best and both
  buffers are unchanged; the idle blink is armed again. A press in state 1 before the
  reaction flag is set is such a press.
\<close>

theorem user_invalid_press:
  assumes "state s \<noteq> 0" and "state s \<noteq> 2" and "\<not> (state s = 1 \<and> reaction s)"
  shows "\<exists>s'. user s = Inr s' \<and> state s' = 0 \<and> elapsed s' = elapsed s \<and> pB s' = pB s
           \<and> bufferElapsed s' = bufferElapsed s \<and> bufferpB s' = bufferpB s
           \<and> pending (timeout s')
               = [\<lparr>target = Cb_tick, fireDelay = 100000, armedAt = clock s\<rparr>]"
proof -
  have "user s = Inr (tick (s\<lparr>state := 0\<rparr>))"
    using assms by (rule user_invalid)
  then show ?thesis
    by (simp add: tick_def attach_def pending_def)
qed

text \<open>
  The press in the armed state, where the reaction flag is clear, and a press with the
  state variable at 7.
\<close>

theorem user_invalid_press_witness:
  "state armed \<noteq> 0 \<and> state armed \<noteq> 2 \<and> \<not> (state armed = 1 \<and> reaction armed)
   \<and> (\<exists>s'. user armed = Inr s' \<and> state s' = 0 \<and> elapsed s' = elapsed armed
          \<and> pB s' = pB armed \<and> bufferElapsed s' = bufferElapsed armed
          \<and> bufferpB s' = bufferpB armed)
   \<and> (\<exists>s'. user (armed\<lparr>state := 7, reaction := True\<rparr>) = Inr s' \<and> state s' = 0)"
proof -
  have h1: "state armed \<noteq> 0" and h2: "state armed \<noteq> 2"
    and h3: "\<not> (state armed = 1 \<and> reaction armed)"
    by (simp_all add: armed_fields)
  let ?s = "armed\<lparr>state := 7, reaction := True\<rparr>"
  have k1: "state ?s \<noteq> 0" and k2: "state ?s \<noteq> 2" and k3: "\<not> (state ?s = 1 \<and> reaction ?s)"
    by simp_all
  show ?thesis
    using h1 h2 h3 user_invalid_press [OF h1 h2 h3] user_invalid_press [OF k1 k2 k3]
    by blast
qed

subsection \<open>The scheduler\<close>

text \<open>
  Claim C8. Arming twice in succession leaves exactly one callback pending, the second.
  Once its delay is over it is the one that is taken, the slot is empty afterwards and
  nothing more is taken from it; before that nothing is taken: the first callback is
  never taken. Cancelling an empty slot leaves it empty, and after a cancellation nothing
  is pending. In the program: two calls of \<^verbatim>\<open>tick\<close> in state 0, or of \<^verbatim>\<open>blinkRed\<close>, in
  succession leave one callback pending.
\<close>

theorem arm_twice_fires_once:
  "pending (attach cb2 d2 n2 (attach cb1 d1 n1 sl))
     = [\<lparr>target = cb2, fireDelay = d2, armedAt = n2\<rparr>]
   \<and> (n2 + d2 \<le> now \<longrightarrow>
        take_due now (attach cb2 d2 n2 (attach cb1 d1 n1 sl))
          = (Some \<lparr>target = cb2, fireDelay = d2, armedAt = n2\<rparr>, None))
   \<and> (now < n2 + d2 \<longrightarrow>
        take_due now (attach cb2 d2 n2 (attach cb1 d1 n1 sl))
          = (None, Some \<lparr>target = cb2, fireDelay = d2, armedAt = n2\<rparr>))
   \<and> take_due now None = (None, None)
   \<and> detach None = None \<and> pending (detach sl) = []
   \<and> (state s = 0 \<longrightarrow>
        pending (timeout (tick (tick s)))
          = [\<lparr>target = Cb_tick, fireDelay = 100000, armedAt = clock s\<rparr>])
   \<and> pending (timeout (blinkRed (blinkRed s)))
       = [\<lparr>target = Cb_blinkRed, fireDelay = 300000, armedAt = clock s\<rparr>]"
  by (simp add: attach_def take_due_def due_def detach_def pending_def tick_def blinkRed_def)

text \<open>
  The idle blink armed at 0 and again at 40 ms: at 120 ms, when the first would have been
  due, nothing is taken; at 140 ms the second is.
\<close>

theorem arm_twice_fires_once_witness:
  "(120000 :: nat) < 40000 + 100000 \<and> (40000 :: nat) + 100000 \<le> 140000
   \<and> take_due 120000 (attach Cb_tick 100000 40000 (attach Cb_tick 100000 0 None))
     = (None, Some \<lparr>target = Cb_tick, fireDelay = 100000, armedAt = 40000\<rparr>)
   \<and> take_due 140000 (attach Cb_tick 100000 40000 (attach Cb_tick 100000 0 None))
       = (Some \<lparr>target = Cb_tick, fireDelay = 100000, armedAt = 40000\<rparr>, None)
   \<and> state main_init = 0
   \<and> pending (timeout (tick (tick main_init)))
       = [\<lparr>target = Cb_tick, fireDelay = 100000, armedAt = clock main_init\<rparr>]"
proof -
  have h: "state main_init = 0"
    by (simp add: main_init_def globals_def tick_def)
  show ?thesis
    using h
      arm_twice_fires_once [of Cb_tick 100000 40000 Cb_tick 100000 0 None 120000 main_init]
      arm_twice_fires_once [of Cb_tick 100000 40000 Cb_tick 100000 0 None 140000 main_init]
    by simp
qed

text \<open>
  Claim C10. The program schedules through one \<^verbatim>\<open>Timeout\<close> object, so at most one
  callback is pending at any time; after \<^verbatim>\<open>blinkRed\<close>, and after \<^verbatim>\<open>tick\<close> in state 0, the
  pending callback is the one just attached, whichever function was pending before.
\<close>

theorem one_pending_callback:
  "length (pending (timeout s)) \<le> 1
   \<and> pending (timeout (blinkRed s))
       = [\<lparr>target = Cb_blinkRed, fireDelay = 300000, armedAt = clock s\<rparr>]
   \<and> (state s = 0 \<longrightarrow>
        pending (timeout (tick s))
          = [\<lparr>target = Cb_tick, fireDelay = 100000, armedAt = clock s\<rparr>])"
  by (simp add: pending_def attach_def tick_def blinkRed_def split: option.splits)

text \<open>
  With the idle blink pending, \<^verbatim>\<open>blinkRed\<close> replaces it; with the red blink pending in
  state 0, \<^verbatim>\<open>tick\<close> replaces it.
\<close>

theorem one_pending_callback_witness:
  "pending (timeout main_init) = [\<lparr>target = Cb_tick, fireDelay = 100000, armedAt = 0\<rparr>]
   \<and> pending (timeout (blinkRed main_init))
       = [\<lparr>target = Cb_blinkRed, fireDelay = 300000, armedAt = 0\<rparr>]
   \<and> state (blinkRed main_init) = 0
   \<and> pending (timeout (tick (blinkRed main_init)))
       = [\<lparr>target = Cb_tick, fireDelay = 100000, armedAt = 0\<rparr>]"
proof -
  have h: "state (blinkRed main_init) = 0"
    by (simp add: blinkRed_def main_init_def globals_def tick_def)
  have c: "clock main_init = 0" "clock (blinkRed main_init) = 0"
    by (simp_all add: blinkRed_def main_init_def globals_def tick_def)
  show ?thesis
    using h c one_pending_callback [of main_init] one_pending_callback [of "blinkRed main_init"]
    by (simp add: timeout_main_init pending_def)
qed

subsection \<open>The value that stands for no personal best\<close>





end
